theory Spec2Isabelle
  imports Complex_Main
begin

section \<open>Chapter table\<close>

text \<open>
  \<^verbatim>\<open>get_metadata\<close> (audiotest2.py, lines 38-43) builds every chapter as a dictionary
  with exactly the keys \<^verbatim>\<open>start_time\<close>, \<^verbatim>\<open>end_time\<close> (both passed through
  \<^verbatim>\<open>float\<close>) and \<^verbatim>\<open>title\<close>, so a chapter is the record \<open>chapter_dict\<close> with these three fields and
  the chapter table is a list in the order the metadata gives it. Times are Python
  floats; they are modelled as real numbers: the chapter functions only compare them
  (no float arithmetic), and the comparison of finite floats is the order of the
  reals. NaN is outside the model.
\<close>

record chapter_dict =
  start_time :: real
  end_time :: real
  title :: string

text \<open>
  \<^verbatim>\<open>get_current_chapter\<close> (lines 53-66): the result starts as the sentinel, the loop
  walks the table in index order and stops (\<^verbatim>\<open>break\<close>) at the first chapter with
  \<^verbatim>\<open>current_time >= start_time and current_time < end_time\<close>.
\<close>

fun get_current_chapter :: "real \<Rightarrow> chapter_dict list \<Rightarrow> string" where
  "get_current_chapter current_time [] = ''Unknown Chapter''"
| "get_current_chapter current_time (chapter # chapters) =
     (if current_time \<ge> start_time chapter \<and> current_time < end_time chapter
      then title chapter
      else get_current_chapter current_time chapters)"

text \<open>
  \<^verbatim>\<open>get_next_chapter_time\<close> (lines 152-157): the first chapter in index order with
  \<^verbatim>\<open>current_time < start_time\<close> decides; without one the time comes back unchanged.
\<close>

fun get_next_chapter_time :: "real \<Rightarrow> chapter_dict list \<Rightarrow> real" where
  "get_next_chapter_time current_time [] = current_time"
| "get_next_chapter_time current_time (chapter # chapters) =
     (if current_time < start_time chapter
      then start_time chapter
      else get_next_chapter_time current_time chapters)"

text \<open>
  \<^verbatim>\<open>get_previous_chapter_time\<close> (lines 160-165): the same loop shape with the test
  \<^verbatim>\<open>current_time > start_time\<close>, run over \<^verbatim>\<open>reversed(chapters)\<close>.
  \<open>previous_scan\<close> is the loop over the sequence it is given;
  \<open>get_previous_chapter_time\<close> hands it the reversed table.
\<close>

fun previous_scan :: "real \<Rightarrow> chapter_dict list \<Rightarrow> real" where
  "previous_scan current_time [] = current_time"
| "previous_scan current_time (chapter # chapters) =
     (if current_time > start_time chapter
      then start_time chapter
      else previous_scan current_time chapters)"

definition get_previous_chapter_time :: "real \<Rightarrow> chapter_dict list \<Rightarrow> real" where
  "get_previous_chapter_time current_time chapters = previous_scan current_time (rev chapters)"

section \<open>Exceptions\<close>

text \<open>
  The exception classes this program can meet. \<^verbatim>\<open>FileNotFoundError\<close>,
  \<^verbatim>\<open>PermissionError\<close> and \<^verbatim>\<open>BrokenPipeError\<close> are the subclasses of
  \<^verbatim>\<open>OSError\<close> that matter here; \<open>OSError\<close> stands for every other operating
  system error (no such device, disk full, ...). \<^verbatim>\<open>EOFError\<close> and
  \<^verbatim>\<open>UnpicklingError\<close> are what \<^verbatim>\<open>pickle.load\<close> raises on a stream it cannot
  decode, \<^verbatim>\<open>ValueError\<close> is what \<^verbatim>\<open>chr\<close> raises outside its range.
  \<^verbatim>\<open>KeyboardInterrupt\<close> derives from \<^verbatim>\<open>BaseException\<close> only, so
  \<^verbatim>\<open>except Exception\<close> does not catch it: \<open>is_Exception\<close> is that test.
\<close>

datatype py_exception =
    FileNotFoundError | PermissionError | BrokenPipeError | OSError
  | EOFError | UnpicklingError | ValueError | KeyboardInterrupt

fun is_Exception :: "py_exception \<Rightarrow> bool" where
  "is_Exception KeyboardInterrupt = False"
| "is_Exception _ = True"

section \<open>Player channel\<close>

text \<open>
  What \<^verbatim>\<open>send_ipc_command\<close> (lines 168-178) acts on: the object at the path
  \<^verbatim>\<open>ipc_socket\<close> and the log file.
  \<^item> \<open>ipc_fault\<close> is the environment: the exception that opening, writing or
    flushing the channel raises at present (\<open>None\<close>: the write goes through);
  \<^item> \<open>ipc_written\<close> is the text the receiver has been handed, one entry per
    completed write, oldest first;
  \<^item> \<open>sending_log\<close> holds the commands announced by line 172
    (\<^verbatim>\<open>logging.debug(f"Sending command to mpv: {command}")\<close>), which runs before
    the \<^verbatim>\<open>try\<close>;
  \<^item> \<open>error_log\<close> holds the exceptions reported by line 178
    (\<^verbatim>\<open>logging.error\<close>).
  The other debug messages of the program do not influence control flow and are not
  recorded, with one exception: evaluating the message of line 125 can raise.
\<close>

record player_io =
  ipc_fault :: "py_exception option"
  ipc_written :: "string list"
  sending_log :: "string list"
  error_log :: "py_exception list"

text \<open>
  A procedure acting on \<open>player_io\<close> returns the state it leaves behind and the
  exception it raises, if any.
\<close>

text \<open>The \<^verbatim>\<open>with open(ipc_socket, 'w')\<close> block of lines 174-176.\<close>

definition ipc_write :: "string \<Rightarrow> player_io \<Rightarrow> player_io \<times> py_exception option" where
  "ipc_write text_out s =
     (case ipc_fault s of
        Some e \<Rightarrow> (s, Some e)
      | None \<Rightarrow> (s\<lparr>ipc_written := ipc_written s @ [text_out]\<rparr>, None))"

definition send_ipc_command :: "string \<Rightarrow> player_io \<Rightarrow> player_io \<times> py_exception option" where
  "send_ipc_command command s =
     (let s1 = s\<lparr>sending_log := sending_log s @ [command]\<rparr> in
      case ipc_write (command @ ''\<newline>'') s1 of
        (s2, None) \<Rightarrow> (s2, None)
      | (s2, Some e) \<Rightarrow>
          if is_Exception e
          then (s2\<lparr>error_log := error_log s2 @ [e]\<rparr>, None)
          else (s2, Some e))"

section \<open>Key handling\<close>

text \<open>Python's \<^verbatim>\<open>ord\<close> on a one-character string.\<close>

definition py_ord :: "char \<Rightarrow> int" where
  "py_ord c = of_char c"

text \<open>
  \<^verbatim>\<open>handle_playback_controls\<close> (lines 121-149). Line 125 evaluates
  \<^verbatim>\<open>chr(key)\<close> before anything else, and \<^verbatim>\<open>chr\<close> raises \<^verbatim>\<open>ValueError\<close>
  unless \<open>0 \<le> key < 0x110000\<close> (curses' \<^verbatim>\<open>getch\<close> gives \<open>-1\<close> when it has no
  key). Then comes the \<^verbatim>\<open>if\<close>/\<^verbatim>\<open>elif\<close> chain, which has no \<^verbatim>\<open>else\<close>.
  The f-strings of lines 144 and 149 print a float; \<open>fmt\<close> is Python's conversion of
  a float to text, taken as a parameter.
\<close>

definition handle_playback_controls ::
  "(real \<Rightarrow> string) \<Rightarrow> int \<Rightarrow> real \<Rightarrow> chapter_dict list \<Rightarrow> player_io
     \<Rightarrow> player_io \<times> py_exception option" where
  "handle_playback_controls fmt key current_time chapters s =
     (if key < 0 \<or> key \<ge> 0x110000 then (s, Some ValueError)
      else if key = py_ord CHR ''p'' then send_ipc_command ''cycle pause'' s
      else if key = py_ord CHR ''s'' then
        (case send_ipc_command ''stop'' s of
           (s1, Some e) \<Rightarrow> (s1, Some e)
         | (s1, None) \<Rightarrow> send_ipc_command ''no-screenshot'' s1)
      else if key = py_ord CHR ''f'' then send_ipc_command ''seek 30 relative'' s
      else if key = py_ord CHR ''b'' then send_ipc_command ''seek -30 relative'' s
      else if key = py_ord CHR ''n'' then
        (let next_chapter_time = get_next_chapter_time current_time chapters in
         send_ipc_command (''seek '' @ fmt next_chapter_time @ '' absolute'') s)
      else if key = py_ord CHR ''m'' then
        (let prev_chapter_time = get_previous_chapter_time current_time chapters in
         send_ipc_command (''seek '' @ fmt prev_chapter_time @ '' absolute'') s)
      else (s, None))"

section \<open>Position store\<close>

text \<open>
  The file \<^verbatim>\<open>playback_position.pkl\<close> as the two \<^verbatim>\<open>open\<close> calls find it:
  \<^item> \<open>content\<close>: the byte stream the file holds, \<open>None\<close> when there is no such
    file;
  \<^item> \<open>read_fault\<close>: the exception that \<^verbatim>\<open>open(..., 'rb')\<close> raises at present
    (an unreadable file, a directory in its place, ...), \<open>None\<close> when the file can
    be read if it exists;
  \<^item> \<open>write_fault\<close>: the exception that \<^verbatim>\<open>open(..., 'wb')\<close> raises at present
    (a read-only directory or file system, a file of another user, ...), \<open>None\<close>
    when the file can be created or replaced.
  The type \<open>'b\<close> of byte streams is left open. \<^verbatim>\<open>pickle\<close> is a library:
  \<open>pickle_dump\<close> (the stream written for a value) and \<open>pickle_load\<close> (the value
  decoded from a stream, or the exception raised) are parameters. The value is the
  playback position, a float, modelled as a real; the integer \<open>0\<close> returned for a
  missing file equals the float \<open>0.0\<close> in Python and is the real \<open>0\<close> here.
\<close>

record 'b pkl_file =
  content :: "'b option"
  read_fault :: "py_exception option"
  write_fault :: "py_exception option"

text \<open>\<^verbatim>\<open>open('playback_position.pkl', 'rb')\<close> and reading the stream.\<close>

definition open_rb :: "'b pkl_file \<Rightarrow> py_exception + 'b" where
  "open_rb f =
     (case read_fault f of
        Some e \<Rightarrow> Inl e
      | None \<Rightarrow> (case content f of None \<Rightarrow> Inl FileNotFoundError | Some b \<Rightarrow> Inr b))"

text \<open>
  \<^verbatim>\<open>load_playback_position\<close> (lines 181-186): the \<^verbatim>\<open>try\<close> covers the
  \<^verbatim>\<open>open\<close> and the \<^verbatim>\<open>pickle.load\<close>; the only handler is
  \<^verbatim>\<open>except FileNotFoundError\<close>, which returns \<open>0\<close>. Every other exception leaves
  the function.
\<close>

definition load_playback_position ::
  "('b \<Rightarrow> py_exception + real) \<Rightarrow> 'b pkl_file \<Rightarrow> py_exception + real" where
  "load_playback_position pickle_load f =
     (case (case open_rb f of Inl e \<Rightarrow> Inl e | Inr b \<Rightarrow> pickle_load b) of
        Inr position \<Rightarrow> Inr position
      | Inl e \<Rightarrow> if e = FileNotFoundError then Inr 0 else Inl e)"

text \<open>
  \<^verbatim>\<open>save_playback_position\<close> (lines 188-190) has no \<^verbatim>\<open>try\<close>: it returns
  nothing when the write succeeds (the result here is the new state of the file) and
  raises what \<^verbatim>\<open>open\<close> raises otherwise. Mode \<^verbatim>\<open>'wb'\<close> creates a missing file and
  replaces the content of an existing one.
\<close>

definition save_playback_position ::
  "(real \<Rightarrow> 'b) \<Rightarrow> real \<Rightarrow> 'b pkl_file \<Rightarrow> py_exception + 'b pkl_file" where
  "save_playback_position pickle_dump position f =
     (case write_fault f of
        Some e \<Rightarrow> Inl e
      | None \<Rightarrow> Inr (f\<lparr>content := Some (pickle_dump position)\<rparr>))"

section \<open>Control loop\<close>

text \<open>
  The arguments of one \<^verbatim>\<open>display_info\<close> call (line 93), before they are formatted
  to two decimals: what a tick publishes.
\<close>

record frame =
  shown_title :: string
  shown_author :: string
  shown_current_time :: real
  shown_time_left :: real
  shown_chapter_time :: real
  shown_chapter :: string

text \<open>Everything outside the process that the loop acts on.\<close>

record 'b world =
  player :: player_io
  position_file :: "'b pkl_file"
  screen :: "frame list"

text \<open>
  The locals of \<^verbatim>\<open>play_audiobook\<close> that the loop reads and never assigns
  (lines 71-83). \<open>chapter_time\<close> is the total duration of the file.
\<close>

record session =
  book_title :: string
  book_author :: string
  book_chapters :: "chapter_dict list"
  chapter_time :: real
  playback_position :: real
  loop_start :: real

text \<open>
  What one iteration reads from outside: the clock (\<^verbatim>\<open>time.time()\<close>, line 86) and
  the key (\<^verbatim>\<open>stdscr.getch()\<close>, line 96).
\<close>

record tick_input =
  wall_clock :: real
  key_code :: int

text \<open>Python's \<^verbatim>\<open>int\<close> on a float truncates towards zero.\<close>

definition int_trunc :: "real \<Rightarrow> int" where
  "int_trunc x = (if x \<ge> 0 then \<lfloor>x\<rfloor> else \<lceil>x\<rceil>)"

text \<open>
  One iteration of the \<^verbatim>\<open>while True\<close> loop (lines 86-104): compute the time,
  resolve the chapter, publish, handle the key, save when the truncated time is a
  multiple of five. No statement of the loop is inside a \<^verbatim>\<open>try\<close>, so an exception
  from a callee ends the iteration and the loop; the result carries it. The time is
  computed in exact arithmetic here (the floats' rounding is not modelled).
\<close>

definition loop_body ::
  "(real \<Rightarrow> string) \<Rightarrow> (real \<Rightarrow> 'b) \<Rightarrow> session \<Rightarrow> tick_input \<Rightarrow> 'b world
     \<Rightarrow> 'b world \<times> py_exception option" where
  "loop_body fmt pickle_dump ses inp w =
     (let current_time = wall_clock inp - loop_start ses + playback_position ses;
          time_left = chapter_time ses - current_time;
          current_chapter = get_current_chapter current_time (book_chapters ses);
          w1 = w\<lparr>screen := screen w @
                 [\<lparr>shown_title = book_title ses, shown_author = book_author ses,
                   shown_current_time = current_time, shown_time_left = time_left,
                   shown_chapter_time = chapter_time ses,
                   shown_chapter = current_chapter\<rparr>]\<rparr>
      in case handle_playback_controls fmt (key_code inp) current_time (book_chapters ses)
                (player w1) of
           (p, Some e) \<Rightarrow> (w1\<lparr>player := p\<rparr>, Some e)
         | (p, None) \<Rightarrow>
             (let w2 = w1\<lparr>player := p\<rparr> in
              if int_trunc current_time mod 5 = 0
              then (case save_playback_position pickle_dump current_time (position_file w2) of
                      Inl e \<Rightarrow> (w2, Some e)
                    | Inr f \<Rightarrow> (w2\<lparr>position_file := f\<rparr>, None))
              else (w2, None)))"

text \<open>
  The loop never ends by itself. \<open>run_ticks\<close> runs it over the inputs of finitely
  many iterations: the result is the world after them and \<open>None\<close> when the loop is
  still running, or the world at the exception that ended it.
\<close>

fun run_ticks ::
  "(real \<Rightarrow> string) \<Rightarrow> (real \<Rightarrow> 'b) \<Rightarrow> session \<Rightarrow> tick_input list \<Rightarrow> 'b world
     \<Rightarrow> 'b world \<times> py_exception option" where
  "run_ticks fmt pickle_dump ses [] w = (w, None)"
| "run_ticks fmt pickle_dump ses (inp # inps) w =
     (case loop_body fmt pickle_dump ses inp w of
        (w', Some e) \<Rightarrow> (w', Some e)
      | (w', None) \<Rightarrow> run_ticks fmt pickle_dump ses inps w')"

text \<open>
  \<^verbatim>\<open>play_audiobook\<close> (lines 69-104) from the point where the metadata is known:
  \<open>metadata\<close> is the result of \<^verbatim>\<open>get_metadata\<close>, \<open>total_duration\<close> the probed
  duration, \<open>start\<close> the clock reading of line 82. The saved position is loaded
  outside any \<^verbatim>\<open>try\<close>, so an exception of \<^verbatim>\<open>load_playback_position\<close> ends the
  function before the loop. Probing the file and starting the player are not
  modelled (their failure is fatal before the loop).
\<close>

definition play_audiobook ::
  "(real \<Rightarrow> string) \<Rightarrow> (real \<Rightarrow> 'b) \<Rightarrow> ('b \<Rightarrow> py_exception + real)
     \<Rightarrow> string \<times> string \<times> chapter_dict list \<Rightarrow> real \<Rightarrow> real \<Rightarrow> tick_input list
     \<Rightarrow> 'b world \<Rightarrow> 'b world \<times> py_exception option" where
  "play_audiobook fmt pickle_dump pickle_load metadata total_duration start inps w =
     (case metadata of (title_of_book, author, chapters) \<Rightarrow>
        (case load_playback_position pickle_load (position_file w) of
           Inl e \<Rightarrow> (w, Some e)
         | Inr position \<Rightarrow>
             run_ticks fmt pickle_dump
               \<lparr>book_title = title_of_book, book_author = author, book_chapters = chapters,
                 chapter_time = total_duration, playback_position = position,
                 loop_start = start\<rparr>
               inps w))"

section \<open>Vocabulary of the specification\<close>

text \<open>
  A time lies in a chapter when \<open>start \<le> t < end\<close> (start-inclusive,
  end-exclusive).
\<close>

definition in_chapter :: "real \<Rightarrow> chapter_dict \<Rightarrow> bool" where
  "in_chapter t c = (start_time c \<le> t \<and> t < end_time c)"

text \<open>The table of the specification's scenarios: two adjacent chapters.\<close>

definition two_chapters :: "chapter_dict list" where
  "two_chapters =
     [\<lparr>start_time = 0, end_time = 300, title = ''Ch1''\<rparr>,
      \<lparr>start_time = 300, end_time = 600, title = ''Ch2''\<rparr>]"

text \<open>
  Every chapter has \<open>start < end\<close> (the specification's data model), and no two
  chapters overlap (which the data model does not promise: the lookup resolves an
  overlap by table order).
\<close>

definition proper_ranges :: "chapter_dict list \<Rightarrow> bool" where
  "proper_ranges chs = (\<forall>c\<in>set chs. start_time c < end_time c)"

definition disjoint_ranges :: "chapter_dict list \<Rightarrow> bool" where
  "disjoint_ranges chs =
     (\<forall>c\<in>set chs. \<forall>d\<in>set chs.
        c = d \<or> end_time c \<le> start_time d \<or> end_time d \<le> start_time c)"

text \<open>
  Two tables sorted by start: one whose chapters overlap, and one with a single
  chapter that has no title tag, which \<^verbatim>\<open>get_metadata\<close> (line 42) titles
  \<^verbatim>\<open>'Unknown Chapter'\<close>.
\<close>

definition overlapping_chapters :: "chapter_dict list" where
  "overlapping_chapters =
     [\<lparr>start_time = 0, end_time = 300, title = ''A''\<rparr>,
      \<lparr>start_time = 200, end_time = 400, title = ''B''\<rparr>]"

definition untitled_chapters :: "chapter_dict list" where
  "untitled_chapters = [\<lparr>start_time = 0, end_time = 300, title = ''Unknown Chapter''\<rparr>]"

text \<open>
  A table that is not sorted by start. \<^verbatim>\<open>get_metadata\<close> (lines 36-43) keeps the
  chapters in the order the container lists them and nothing in the program sorts or
  checks them.
\<close>

definition unsorted_chapters :: "chapter_dict list" where
  "unsorted_chapters =
     [\<lparr>start_time = 300, end_time = 600, title = ''Ch2''\<rparr>,
      \<lparr>start_time = 100, end_time = 300, title = ''Ch1''\<rparr>]"

text \<open>
  The channel's fault, if there is one, is an exception that \<^verbatim>\<open>except Exception\<close>
  catches: a channel write failure (receiver gone, broken pipe, file system error) is
  an \<^verbatim>\<open>OSError\<close>.
\<close>

definition fault_is_caught :: "player_io \<Rightarrow> bool" where
  "fault_is_caught s = (case ipc_fault s of None \<Rightarrow> True | Some e \<Rightarrow> is_Exception e)"

text \<open>
  What a call dispatched, seen from outside: it raised nothing, it announced exactly
  the commands \<open>cmds\<close> in order, and a channel without fault received each of them
  followed by a newline.
\<close>

definition dispatched :: "player_io \<Rightarrow> player_io \<times> py_exception option \<Rightarrow> string list \<Rightarrow> bool" where
  "dispatched s r cmds =
     (snd r = None
      \<and> sending_log (fst r) = sending_log s @ cmds
      \<and> ipc_written (fst r) =
          ipc_written s @ (if ipc_fault s = None then map (\<lambda>c. c @ ''\<newline>'') cmds else []))"

text \<open>
  Concrete stand-ins for the library parameters, used to run the model on concrete
  inputs. A stream is either empty (a file truncated by an interrupted write, on
  which \<^verbatim>\<open>pickle.load\<close> raises \<^verbatim>\<open>EOFError\<close>) or the stream written for a
  value. \<open>sample_fmt\<close> prints the two floats of the scenarios as Python does.
\<close>

datatype sample_stream = Empty_stream | Stream_of real

fun sample_load :: "sample_stream \<Rightarrow> py_exception + real" where
  "sample_load Empty_stream = Inl EOFError"
| "sample_load (Stream_of v) = Inr v"

definition sample_dump :: "real \<Rightarrow> sample_stream" where
  "sample_dump v = Stream_of v"

definition sample_fmt :: "real \<Rightarrow> string" where
  "sample_fmt x = (if x = 300 then ''300.0'' else if x = 0 then ''0.0'' else ''50.0'')"

text \<open>The value line 86 gives \<^verbatim>\<open>current_time\<close> in an iteration.\<close>

definition tick_time :: "session \<Rightarrow> tick_input \<Rightarrow> real" where
  "tick_time ses inp = wall_clock inp - loop_start ses + playback_position ses"

text \<open>
  A world at start-up: nothing sent, nothing logged, nothing on the screen; the
  channel's fault and the position file are given.
\<close>

definition fresh_player :: "py_exception option \<Rightarrow> player_io" where
  "fresh_player fault =
     \<lparr>ipc_fault = fault, ipc_written = [], sending_log = [], error_log = []\<rparr>"

definition initial_world :: "py_exception option \<Rightarrow> 'b pkl_file \<Rightarrow> 'b world" where
  "initial_world fault f =
     \<lparr>player = fresh_player fault, position_file = f, screen = []\<rparr>"

text \<open>
  States of the position file for the concrete runs: no file yet; no file, in a
  directory that cannot be written (reading finds nothing, writing is refused); a
  file that an interrupted write left empty; a file whose content is sound but that
  cannot be opened for reading.
\<close>

definition absent_file :: "'b pkl_file" where
  "absent_file = \<lparr>content = None, read_fault = None, write_fault = None\<rparr>"

definition read_only_dir :: "'b pkl_file" where
  "read_only_dir = \<lparr>content = None, read_fault = None, write_fault = Some PermissionError\<rparr>"

definition truncated_file :: "sample_stream pkl_file" where
  "truncated_file = \<lparr>content = Some Empty_stream, read_fault = None, write_fault = None\<rparr>"

definition unreadable_file :: "sample_stream pkl_file" where
  "unreadable_file =
     \<lparr>content = Some (Stream_of 42.5), read_fault = Some PermissionError, write_fault = None\<rparr>"

text \<open>
  A session over the two-chapter table that starts at clock reading \<open>1000\<close> from
  position \<open>0\<close>.
\<close>

definition sample_session :: session where
  "sample_session =
     \<lparr>book_title = ''Book'', book_author = ''Author'', book_chapters = two_chapters,
      chapter_time = 600, playback_position = 0, loop_start = 1000\<rparr>"

section \<open>Chapter lookup\<close>

lemma get_current_chapter_find:
  "get_current_chapter t chs =
     (case find (in_chapter t) chs of None \<Rightarrow> ''Unknown Chapter'' | Some c \<Rightarrow> title c)"
  by (induction chs) (simp_all add: in_chapter_def)

lemma find_first_index:
  assumes "i < length xs" and "P (xs ! i)" and "\<forall>j<i. \<not> P (xs ! j)"
  shows "find P xs = Some (xs ! i)"
  using assms
proof (induction xs arbitrary: i)
  case Nil
  then show ?case by simp
next
  case (Cons x xs)
  show ?case
  proof (cases i)
    case 0
    with Cons.prems show ?thesis by simp
  next
    case (Suc k)
    from Cons.prems Suc have "\<not> P x" by auto
    moreover have "find P xs = Some (xs ! k)"
    proof (rule Cons.IH)
      show "k < length xs" using Cons.prems Suc by simp
      show "P (xs ! k)" using Cons.prems Suc by simp
      show "\<forall>j<k. \<not> P (xs ! j)"
      proof (intro allI impI)
        fix j assume "j < k"
        then have "Suc j < i" using Suc by simp
        with Cons.prems have "\<not> P ((x # xs) ! Suc j)" by blast
        then show "\<not> P (xs ! j)" by simp
      qed
    qed
    ultimately show ?thesis using Suc by simp
  qed
qed

text \<open>
  C1. For every time and every chapter table, \<open>get_current_chapter\<close> returns the title
  of the first chapter in table order whose range \<open>start \<le> t < end\<close> holds the time,
  and the sentinel \<open>Unknown Chapter\<close> when no chapter does (which covers the empty
  table, a time before the first chapter, in a gap, and at or past the last end).
  Where chapters overlap, the earlier one in the table wins. The three conjuncts say
  it with \<open>find\<close>, with indices, and for the case of no match.
\<close>

theorem get_current_chapter_first_match:
  "get_current_chapter t chs =
     (case find (in_chapter t) chs of None \<Rightarrow> ''Unknown Chapter'' | Some c \<Rightarrow> title c)
   \<and> (\<forall>i<length chs. in_chapter t (chs ! i) \<and> (\<forall>j<i. \<not> in_chapter t (chs ! j))
         \<longrightarrow> get_current_chapter t chs = title (chs ! i))
   \<and> ((\<forall>c\<in>set chs. \<not> in_chapter t c) \<longrightarrow> get_current_chapter t chs = ''Unknown Chapter'')"
proof (intro conjI allI impI)
  show "get_current_chapter t chs =
     (case find (in_chapter t) chs of None \<Rightarrow> ''Unknown Chapter'' | Some c \<Rightarrow> title c)"
    by (rule get_current_chapter_find)
next
  fix i
  assume "i < length chs"
    and "in_chapter t (chs ! i) \<and> (\<forall>j<i. \<not> in_chapter t (chs ! j))"
  then have "find (in_chapter t) chs = Some (chs ! i)"
    by (intro find_first_index) simp_all
  then show "get_current_chapter t chs = title (chs ! i)"
    by (simp add: get_current_chapter_find)
next
  assume "\<forall>c\<in>set chs. \<not> in_chapter t c"
  then have "find (in_chapter t) chs = None"
    by (simp add: find_None_iff)
  then show "get_current_chapter t chs = ''Unknown Chapter''"
    by (simp add: get_current_chapter_find)
qed

theorem get_current_chapter_first_match_witness:
  "1 < length two_chapters \<and> in_chapter 300 (two_chapters ! 1)
   \<and> \<not> in_chapter 300 (two_chapters ! 0)
   \<and> get_current_chapter 300 two_chapters = ''Ch2''
   \<and> \<not> in_chapter 600 (two_chapters ! 0) \<and> \<not> in_chapter 600 (two_chapters ! 1)
   \<and> get_current_chapter 600 two_chapters = ''Unknown Chapter''"
proof -
  have len: "1 < length two_chapters"
    by (simp add: two_chapters_def)
  have at300: "in_chapter 300 (two_chapters ! 1)" "\<not> in_chapter 300 (two_chapters ! 0)"
    by (simp_all add: two_chapters_def in_chapter_def)
  have at600: "\<not> in_chapter 600 (two_chapters ! 0)" "\<not> in_chapter 600 (two_chapters ! 1)"
    by (simp_all add: two_chapters_def in_chapter_def)
  have "\<forall>j<1. \<not> in_chapter 300 (two_chapters ! j)"
    using at300 by simp
  with get_current_chapter_first_match [of 300 two_chapters] len at300
  have "get_current_chapter 300 two_chapters = title (two_chapters ! 1)"
    by blast
  then have r300: "get_current_chapter 300 two_chapters = ''Ch2''"
    by (simp add: two_chapters_def)
  have "\<forall>c\<in>set two_chapters. \<not> in_chapter 600 c"
    by (simp add: two_chapters_def in_chapter_def)
  with get_current_chapter_first_match [of 600 two_chapters]
  have r600: "get_current_chapter 600 two_chapters = ''Unknown Chapter''"
    by blast
  from len at300 at600 r300 r600 show ?thesis by simp
qed

section \<open>Neighbour queries\<close>

lemma get_next_chapter_time_filter:
  "get_next_chapter_time t chs =
     (case filter (\<lambda>c. t < start_time c) chs of [] \<Rightarrow> t | c # _ \<Rightarrow> start_time c)"
  by (induction chs) simp_all

lemma get_next_chapter_time_sorted:
  assumes "sorted (map start_time chs)" and "\<exists>c\<in>set chs. t < start_time c"
  shows "get_next_chapter_time t chs =
           Min (set (map start_time (filter (\<lambda>c. t < start_time c) chs)))"
  using assms
proof (induction chs)
  case Nil
  then show ?case by simp
next
  case (Cons c cs)
  show ?case
  proof (cases "t < start_time c")
    case True
    have "\<forall>x\<in>set (map start_time (filter (\<lambda>c. t < start_time c) cs)). start_time c \<le> x"
      using Cons.prems(1) by auto
    then have "Min (insert (start_time c) (set (map start_time (filter (\<lambda>c. t < start_time c) cs))))
                 = start_time c"
      by (intro Min_eqI) auto
    with True show ?thesis by simp
  next
    case False
    with Cons.prems have "\<exists>c\<in>set cs. t < start_time c" by auto
    moreover from Cons.prems have "sorted (map start_time cs)" by simp
    ultimately show ?thesis using Cons.IH False by simp
  qed
qed

text \<open>
  C4, as the code has it. For every time and chapter table,
  \<open>get_next_chapter_time\<close> returns the start of the first chapter in index order
  that starts strictly after the time; the result is then strictly greater than the
  time. Without such a chapter the time is returned unchanged. When the table is
  sorted ascending by start, the first later start in index order is the smallest
  chapter start strictly greater than the time.
\<close>

theorem get_next_chapter_time_first_later_start:
  "get_next_chapter_time t chs =
     (case filter (\<lambda>c. t < start_time c) chs of [] \<Rightarrow> t | c # _ \<Rightarrow> start_time c)
   \<and> ((\<exists>c\<in>set chs. t < start_time c) \<longrightarrow> t < get_next_chapter_time t chs)
   \<and> ((\<forall>c\<in>set chs. start_time c \<le> t) \<longrightarrow> get_next_chapter_time t chs = t)
   \<and> (sorted (map start_time chs) \<and> (\<exists>c\<in>set chs. t < start_time c) \<longrightarrow>
        get_next_chapter_time t chs =
          Min (set (map start_time (filter (\<lambda>c. t < start_time c) chs))))"
proof (intro conjI impI)
  show "get_next_chapter_time t chs =
     (case filter (\<lambda>c. t < start_time c) chs of [] \<Rightarrow> t | c # _ \<Rightarrow> start_time c)"
    by (rule get_next_chapter_time_filter)
next
  assume "\<exists>c\<in>set chs. t < start_time c"
  then show "t < get_next_chapter_time t chs"
    by (induction chs) auto
next
  assume "\<forall>c\<in>set chs. start_time c \<le> t"
  then show "get_next_chapter_time t chs = t"
    by (induction chs) auto
next
  assume "sorted (map start_time chs) \<and> (\<exists>c\<in>set chs. t < start_time c)"
  then show "get_next_chapter_time t chs =
          Min (set (map start_time (filter (\<lambda>c. t < start_time c) chs)))"
    by (simp add: get_next_chapter_time_sorted)
qed

theorem get_next_chapter_time_first_later_start_witness:
  "sorted (map start_time two_chapters)
   \<and> two_chapters ! 1 \<in> set two_chapters \<and> 50 < start_time (two_chapters ! 1)
   \<and> get_next_chapter_time 50 two_chapters = 300
   \<and> 50 < get_next_chapter_time 50 two_chapters
   \<and> start_time (two_chapters ! 0) \<le> 400 \<and> start_time (two_chapters ! 1) \<le> 400
   \<and> get_next_chapter_time 400 two_chapters = 400"
proof -
  have srt: "sorted (map start_time two_chapters)"
    by (simp add: two_chapters_def)
  have mem: "two_chapters ! 1 \<in> set two_chapters" and later: "50 < start_time (two_chapters ! 1)"
    by (simp_all add: two_chapters_def)
  then have ex: "\<exists>c\<in>set two_chapters. 50 < start_time c"
    by blast
  with srt get_next_chapter_time_first_later_start [of 50 two_chapters]
  have "get_next_chapter_time 50 two_chapters =
          Min (set (map start_time (filter (\<lambda>c. 50 < start_time c) two_chapters)))"
    and gt: "50 < get_next_chapter_time 50 two_chapters"
    by blast+
  then have r50: "get_next_chapter_time 50 two_chapters = 300"
    by (simp add: two_chapters_def)
  have le: "start_time (two_chapters ! 0) \<le> 400" "start_time (two_chapters ! 1) \<le> 400"
    by (simp_all add: two_chapters_def)
  then have "\<forall>c\<in>set two_chapters. start_time c \<le> 400"
    by (simp add: two_chapters_def)
  with get_next_chapter_time_first_later_start [of 400 two_chapters]
  have r400: "get_next_chapter_time 400 two_chapters = 400"
    by blast
  from srt mem later r50 gt le r400 show ?thesis by simp
qed

text \<open>
  C4 as stated fails on a table that is not sorted by start: at time \<open>50\<close> both
  chapters of \<open>unsorted_chapters\<close> start later, the scan stops at the first of them
  and returns \<open>300\<close>, while the smallest chapter start strictly greater than \<open>50\<close>
  is \<open>100\<close>.
\<close>

theorem get_next_chapter_time_counterexample:
  "get_next_chapter_time 50 unsorted_chapters = 300
   \<and> Min (set (map start_time (filter (\<lambda>c. 50 < start_time c) unsorted_chapters))) = 100
   \<and> get_next_chapter_time 50 unsorted_chapters
       \<noteq> Min (set (map start_time (filter (\<lambda>c. 50 < start_time c) unsorted_chapters)))"
  by (simp add: unsorted_chapters_def)

lemma previous_scan_filter:
  "previous_scan t chs =
     (case filter (\<lambda>c. start_time c < t) chs of [] \<Rightarrow> t | c # _ \<Rightarrow> start_time c)"
  by (induction chs) simp_all

lemma previous_scan_less: "\<exists>c\<in>set chs. start_time c < t \<Longrightarrow> previous_scan t chs < t"
  by (induction chs) auto

lemma previous_scan_none: "\<forall>c\<in>set chs. t \<le> start_time c \<Longrightarrow> previous_scan t chs = t"
  by (induction chs) auto

lemma find_last_index:
  assumes "i < length xs" and "P (xs ! i)" and "\<forall>j. i < j \<and> j < length xs \<longrightarrow> \<not> P (xs ! j)"
  shows "find P (rev xs) = Some (xs ! i)"
proof -
  let ?k = "length xs - 1 - i"
  have k: "?k < length (rev xs)" using assms(1) by simp
  have eq: "rev xs ! ?k = xs ! i" using assms(1) by (simp add: rev_nth)
  have "\<forall>j<?k. \<not> P (rev xs ! j)"
  proof (intro allI impI)
    fix j assume j: "j < ?k"
    then have "rev xs ! j = xs ! (length xs - Suc j)" by (simp add: rev_nth)
    moreover have "i < length xs - Suc j \<and> length xs - Suc j < length xs" using j assms(1) by auto
    ultimately show "\<not> P (rev xs ! j)" using assms(3) by simp
  qed
  with k eq assms(2) have "find P (rev xs) = Some (rev xs ! ?k)"
    by (intro find_first_index) simp_all
  with eq show ?thesis by simp
qed

lemma previous_scan_find:
  "previous_scan t chs = (case find (\<lambda>c. start_time c < t) chs of None \<Rightarrow> t | Some c \<Rightarrow> start_time c)"
  by (induction chs) simp_all

text \<open>
  C5. For every time and chapter table, \<open>get_previous_chapter_time\<close> scans the table
  in reverse index order and returns the first chapter start strictly less than the
  time, which is the start at the largest index among those: a value strictly less
  than the time. Without such a chapter the time is returned unchanged.
\<close>

theorem get_previous_chapter_time_reverse_scan:
  "get_previous_chapter_time t chs =
     (case filter (\<lambda>c. start_time c < t) (rev chs) of [] \<Rightarrow> t | c # _ \<Rightarrow> start_time c)
   \<and> ((\<exists>c\<in>set chs. start_time c < t) \<longrightarrow> get_previous_chapter_time t chs < t)
   \<and> ((\<forall>c\<in>set chs. t \<le> start_time c) \<longrightarrow> get_previous_chapter_time t chs = t)
   \<and> (\<forall>i<length chs. start_time (chs ! i) < t
         \<and> (\<forall>j. i < j \<and> j < length chs \<longrightarrow> t \<le> start_time (chs ! j))
         \<longrightarrow> get_previous_chapter_time t chs = start_time (chs ! i))"
proof (intro conjI impI allI)
  show "get_previous_chapter_time t chs =
     (case filter (\<lambda>c. start_time c < t) (rev chs) of [] \<Rightarrow> t | c # _ \<Rightarrow> start_time c)"
    by (simp add: get_previous_chapter_time_def previous_scan_filter)
next
  assume "\<exists>c\<in>set chs. start_time c < t"
  then show "get_previous_chapter_time t chs < t"
    by (simp add: get_previous_chapter_time_def previous_scan_less)
next
  assume "\<forall>c\<in>set chs. t \<le> start_time c"
  then show "get_previous_chapter_time t chs = t"
    by (simp add: get_previous_chapter_time_def previous_scan_none)
next
  fix i
  assume i: "i < length chs"
    and h: "start_time (chs ! i) < t \<and> (\<forall>j. i < j \<and> j < length chs \<longrightarrow> t \<le> start_time (chs ! j))"
  then have "\<forall>j. i < j \<and> j < length chs \<longrightarrow> \<not> start_time (chs ! j) < t"
    by (simp add: not_less)
  with i h have "find (\<lambda>c. start_time c < t) (rev chs) = Some (chs ! i)"
    by (intro find_last_index) simp_all
  then show "get_previous_chapter_time t chs = start_time (chs ! i)"
    by (simp add: get_previous_chapter_time_def previous_scan_find)
qed

theorem get_previous_chapter_time_reverse_scan_witness:
  "1 < length two_chapters \<and> start_time (two_chapters ! 1) < 400
   \<and> get_previous_chapter_time 400 two_chapters = 300
   \<and> get_previous_chapter_time 400 two_chapters < 400
   \<and> 0 \<le> start_time (two_chapters ! 0) \<and> 0 \<le> start_time (two_chapters ! 1)
   \<and> get_previous_chapter_time 0 two_chapters = 0"
proof -
  have len: "1 < length two_chapters" and before: "start_time (two_chapters ! 1) < 400"
    by (simp_all add: two_chapters_def)
  have last: "\<forall>j. 1 < j \<and> j < length two_chapters \<longrightarrow> 400 \<le> start_time (two_chapters ! j)"
    by (simp add: two_chapters_def)
  from get_previous_chapter_time_reverse_scan [of 400 two_chapters] len before last
  have "get_previous_chapter_time 400 two_chapters = start_time (two_chapters ! 1)"
    by blast
  then have r400: "get_previous_chapter_time 400 two_chapters = 300"
    by (simp add: two_chapters_def)
  have "two_chapters ! 1 \<in> set two_chapters"
    by (simp add: two_chapters_def)
  with before have "\<exists>c\<in>set two_chapters. start_time c < 400"
    by blast
  with get_previous_chapter_time_reverse_scan [of 400 two_chapters]
  have lt: "get_previous_chapter_time 400 two_chapters < 400"
    by blast
  have ge: "0 \<le> start_time (two_chapters ! 0)" "0 \<le> start_time (two_chapters ! 1)"
    by (simp_all add: two_chapters_def)
  then have "\<forall>c\<in>set two_chapters. 0 \<le> start_time c"
    by (simp add: two_chapters_def)
  with get_previous_chapter_time_reverse_scan [of 0 two_chapters]
  have r0: "get_previous_chapter_time 0 two_chapters = 0"
    by blast
  from len before r400 lt ge r0 show ?thesis by simp
qed

section \<open>Chapter boundaries\<close>

lemma not_in_chapter_own_end: "\<not> in_chapter (end_time c) c"
  by (simp add: in_chapter_def)

lemma find_filter_irrelevant:
  "\<not> P c \<Longrightarrow> find P (filter (\<lambda>d. d \<noteq> c) xs) = find P xs"
  by (induction xs) auto

lemma in_chapter_end_disjoint:
  assumes "disjoint_ranges chs" and "proper_ranges chs" and "c \<in> set chs" and "d \<in> set chs"
  shows "in_chapter (end_time c) d \<longleftrightarrow> start_time d = end_time c"
proof
  assume m: "in_chapter (end_time c) d"
  then have "c \<noteq> d" using not_in_chapter_own_end by auto
  with assms have "end_time c \<le> start_time d \<or> end_time d \<le> start_time c"
    unfolding disjoint_ranges_def by blast
  moreover from assms have "start_time c < end_time c"
    unfolding proper_ranges_def by blast
  ultimately show "start_time d = end_time c"
    using m by (auto simp: in_chapter_def)
next
  assume "start_time d = end_time c"
  moreover from assms have "start_time d < end_time d"
    unfolding proper_ranges_def by blast
  ultimately show "in_chapter (end_time c) d"
    by (simp add: in_chapter_def)
qed

lemma find_cong_set: "(\<And>x. x \<in> set xs \<Longrightarrow> P x = Q x) \<Longrightarrow> find P xs = find Q xs"
  by (induction xs) auto

text \<open>
  C6, as the code has it. Chapter boundaries are start-inclusive and end-exclusive:
  a chapter \<open>c\<close> of the table never contains its own end, so the lookup at
  \<open>end_time c\<close> is resolved as if \<open>c\<close> were not in the table, by the first other
  chapter in table order whose range holds that time, or by the sentinel. In a table
  whose chapters have \<open>start < end\<close> and do not overlap, that is the first chapter
  that starts exactly at \<open>end_time c\<close>, and \<open>Unknown Chapter\<close> when no chapter
  starts there. (The string returned is a title: it can equal the title of \<open>c\<close>
  when another chapter carries the same title or \<open>c\<close> is titled
  \<open>Unknown Chapter\<close>.)
\<close>

theorem chapter_end_is_exclusive:
  assumes "c \<in> set chs"
  shows "\<not> in_chapter (end_time c) c
    \<and> get_current_chapter (end_time c) chs =
        get_current_chapter (end_time c) (filter (\<lambda>d. d \<noteq> c) chs)
    \<and> (proper_ranges chs \<and> disjoint_ranges chs \<longrightarrow>
         get_current_chapter (end_time c) chs =
           (case find (\<lambda>d. start_time d = end_time c) chs of
              None \<Rightarrow> ''Unknown Chapter'' | Some d \<Rightarrow> title d))"
proof (intro conjI impI)
  show "\<not> in_chapter (end_time c) c"
    by (rule not_in_chapter_own_end)
next
  show "get_current_chapter (end_time c) chs =
          get_current_chapter (end_time c) (filter (\<lambda>d. d \<noteq> c) chs)"
    by (simp add: get_current_chapter_find find_filter_irrelevant not_in_chapter_own_end)
next
  assume h: "proper_ranges chs \<and> disjoint_ranges chs"
  have "find (in_chapter (end_time c)) chs = find (\<lambda>d. start_time d = end_time c) chs"
    using h assms by (intro find_cong_set in_chapter_end_disjoint) simp_all
  then show "get_current_chapter (end_time c) chs =
           (case find (\<lambda>d. start_time d = end_time c) chs of
              None \<Rightarrow> ''Unknown Chapter'' | Some d \<Rightarrow> title d)"
    by (simp add: get_current_chapter_find)
qed

theorem chapter_end_is_exclusive_witness:
  "two_chapters ! 0 \<in> set two_chapters
   \<and> proper_ranges two_chapters \<and> disjoint_ranges two_chapters
   \<and> \<not> in_chapter (end_time (two_chapters ! 0)) (two_chapters ! 0)
   \<and> get_current_chapter (end_time (two_chapters ! 0)) two_chapters = ''Ch2''
   \<and> get_current_chapter (end_time (two_chapters ! 1)) two_chapters = ''Unknown Chapter''"
proof -
  have m0: "two_chapters ! 0 \<in> set two_chapters" and m1: "two_chapters ! 1 \<in> set two_chapters"
    by (simp_all add: two_chapters_def)
  have p: "proper_ranges two_chapters" and d: "disjoint_ranges two_chapters"
    by (simp_all add: two_chapters_def proper_ranges_def disjoint_ranges_def)
  from chapter_end_is_exclusive [OF m0] p d
  have n0: "\<not> in_chapter (end_time (two_chapters ! 0)) (two_chapters ! 0)"
    and "get_current_chapter (end_time (two_chapters ! 0)) two_chapters =
           (case find (\<lambda>d. start_time d = end_time (two_chapters ! 0)) two_chapters of
              None \<Rightarrow> ''Unknown Chapter'' | Some d \<Rightarrow> title d)"
    by blast+
  then have r0: "get_current_chapter (end_time (two_chapters ! 0)) two_chapters = ''Ch2''"
    by (simp add: two_chapters_def)
  from chapter_end_is_exclusive [OF m1] p d
  have "get_current_chapter (end_time (two_chapters ! 1)) two_chapters =
           (case find (\<lambda>d. start_time d = end_time (two_chapters ! 1)) two_chapters of
              None \<Rightarrow> ''Unknown Chapter'' | Some d \<Rightarrow> title d)"
    by blast
  then have r1: "get_current_chapter (end_time (two_chapters ! 1)) two_chapters = ''Unknown Chapter''"
    by (simp add: two_chapters_def)
  from m0 p d n0 r0 r1 show ?thesis by simp
qed

text \<open>
  C6 as stated fails on two tables the program can be given. With overlapping
  chapters the time \<open>300\<close>, the end of \<open>A\<close>, resolves to \<open>B\<close>, which starts at
  \<open>200\<close>, although no chapter starts at \<open>300\<close>. With a chapter that has no title
  tag, the lookup at its end returns the sentinel, which is that chapter's title.
\<close>

theorem chapter_end_counterexample:
  "overlapping_chapters ! 0 \<in> set overlapping_chapters
   \<and> get_current_chapter (end_time (overlapping_chapters ! 0)) overlapping_chapters = ''B''
   \<and> filter (\<lambda>d. start_time d = end_time (overlapping_chapters ! 0)) overlapping_chapters = []
   \<and> untitled_chapters ! 0 \<in> set untitled_chapters
   \<and> get_current_chapter (end_time (untitled_chapters ! 0)) untitled_chapters
       = title (untitled_chapters ! 0)"
  by (simp add: overlapping_chapters_def untitled_chapters_def)

section \<open>Sending and key handling\<close>

lemma send_ipc_command_healthy:
  "ipc_fault s = None \<Longrightarrow>
     send_ipc_command command s =
       (s\<lparr>ipc_written := ipc_written s @ [command @ ''\<newline>''],
          sending_log := sending_log s @ [command]\<rparr>, None)"
  by (simp add: send_ipc_command_def ipc_write_def)

lemma send_ipc_command_failing:
  "ipc_fault s = Some e \<Longrightarrow> is_Exception e \<Longrightarrow>
     send_ipc_command command s =
       (s\<lparr>sending_log := sending_log s @ [command], error_log := error_log s @ [e]\<rparr>, None)"
  by (simp add: send_ipc_command_def ipc_write_def)

lemma send_ipc_command_dispatched:
  assumes "fault_is_caught s"
  shows "dispatched s (send_ipc_command command s) [command]"
    and "ipc_fault (fst (send_ipc_command command s)) = ipc_fault s"
    and "snd (send_ipc_command command s) = None"
proof -
  show "dispatched s (send_ipc_command command s) [command]"
  proof (cases "ipc_fault s")
    case None
    then show ?thesis
      by (simp add: send_ipc_command_healthy dispatched_def)
  next
    case (Some e)
    with assms have "is_Exception e" by (simp add: fault_is_caught_def)
    with Some show ?thesis
      by (simp add: send_ipc_command_failing dispatched_def)
  qed
  show "ipc_fault (fst (send_ipc_command command s)) = ipc_fault s"
  proof (cases "ipc_fault s")
    case None
    then show ?thesis by (simp add: send_ipc_command_healthy)
  next
    case (Some e)
    with assms have "is_Exception e" by (simp add: fault_is_caught_def)
    with Some show ?thesis by (simp add: send_ipc_command_failing)
  qed
  then show "snd (send_ipc_command command s) = None"
  proof (cases "ipc_fault s")
    case None
    then show ?thesis by (simp add: send_ipc_command_healthy)
  next
    case (Some e)
    with assms have "is_Exception e" by (simp add: fault_is_caught_def)
    with Some show ?thesis by (simp add: send_ipc_command_failing)
  qed
qed

lemma dispatched_twice:
  assumes "dispatched s (s1, None) [a]" and "ipc_fault s1 = ipc_fault s"
    and "dispatched s1 r [b]"
  shows "dispatched s r [a, b]"
  using assms by (auto simp: dispatched_def)

lemma stop_dispatched:
  assumes "fault_is_caught s"
  shows "dispatched s
     (case send_ipc_command ''stop'' s of
        (s1, Some e) \<Rightarrow> (s1, Some e)
      | (s1, None) \<Rightarrow> send_ipc_command ''no-screenshot'' s1) [''stop'', ''no-screenshot'']"
proof -
  obtain s1 where r: "send_ipc_command ''stop'' s = (s1, None)"
    using send_ipc_command_dispatched(3) [OF assms, of "''stop''"]
    by (cases "send_ipc_command ''stop'' s") auto
  have f1: "ipc_fault s1 = ipc_fault s"
    using send_ipc_command_dispatched(2) [OF assms, of "''stop''"] r by simp
  then have c1: "fault_is_caught s1"
    using assms by (simp add: fault_is_caught_def)
  have "dispatched s (s1, None) [''stop'']"
    using send_ipc_command_dispatched(1) [OF assms, of "''stop''"] r by simp
  then have "dispatched s (send_ipc_command ''no-screenshot'' s1) [''stop'', ''no-screenshot'']"
    using f1 send_ipc_command_dispatched(1) [OF c1] by (rule dispatched_twice)
  with r show ?thesis by simp
qed

lemma key_codes:
  "py_ord CHR ''p'' = 112" "py_ord CHR ''s'' = 115" "py_ord CHR ''f'' = 102"
  "py_ord CHR ''b'' = 98" "py_ord CHR ''n'' = 110" "py_ord CHR ''m'' = 109"
  by (simp_all add: py_ord_def)

text \<open>
  C9. The key-to-command encoding follows the fixed keymap: \<open>p\<close> sends the single
  command \<open>cycle pause\<close>; \<open>s\<close> sends \<open>stop\<close> and then \<open>no-screenshot\<close>;
  \<open>f\<close> sends \<open>seek 30 relative\<close>; \<open>b\<close> sends \<open>seek -30 relative\<close>; \<open>n\<close>
  and \<open>m\<close> each send \<open>seek <target> absolute\<close>, where the target is
  \<open>get_next_chapter_time\<close>, respectively \<open>get_previous_chapter_time\<close>, at the
  current time of the tick, printed as a float. The commands are handed to
  \<open>send_ipc_command\<close> in this order, and a working channel receives each of them
  followed by a newline; a failing channel (with a fault that the handler of
  \<open>send_ipc_command\<close> catches) receives nothing.
\<close>

theorem keymap_encoding:
  assumes "fault_is_caught s"
  shows
    "dispatched s (handle_playback_controls fmt (py_ord CHR ''p'') t chs s) [''cycle pause'']
   \<and> dispatched s (handle_playback_controls fmt (py_ord CHR ''s'') t chs s)
        [''stop'', ''no-screenshot'']
   \<and> dispatched s (handle_playback_controls fmt (py_ord CHR ''f'') t chs s)
        [''seek 30 relative'']
   \<and> dispatched s (handle_playback_controls fmt (py_ord CHR ''b'') t chs s)
        [''seek -30 relative'']
   \<and> dispatched s (handle_playback_controls fmt (py_ord CHR ''n'') t chs s)
        [''seek '' @ fmt (get_next_chapter_time t chs) @ '' absolute'']
   \<and> dispatched s (handle_playback_controls fmt (py_ord CHR ''m'') t chs s)
        [''seek '' @ fmt (get_previous_chapter_time t chs) @ '' absolute'']"
proof (intro conjI)
  show "dispatched s (handle_playback_controls fmt (py_ord CHR ''p'') t chs s) [''cycle pause'']"
    using send_ipc_command_dispatched(1) [OF assms]
    by (simp add: handle_playback_controls_def key_codes)
  show "dispatched s (handle_playback_controls fmt (py_ord CHR ''s'') t chs s)
        [''stop'', ''no-screenshot'']"
    using stop_dispatched [OF assms]
    by (simp add: handle_playback_controls_def key_codes)
  show "dispatched s (handle_playback_controls fmt (py_ord CHR ''f'') t chs s)
        [''seek 30 relative'']"
    using send_ipc_command_dispatched(1) [OF assms]
    by (simp add: handle_playback_controls_def key_codes)
  show "dispatched s (handle_playback_controls fmt (py_ord CHR ''b'') t chs s)
        [''seek -30 relative'']"
    using send_ipc_command_dispatched(1) [OF assms]
    by (simp add: handle_playback_controls_def key_codes)
  show "dispatched s (handle_playback_controls fmt (py_ord CHR ''n'') t chs s)
        [''seek '' @ fmt (get_next_chapter_time t chs) @ '' absolute'']"
    using send_ipc_command_dispatched(1) [OF assms]
    by (simp add: handle_playback_controls_def key_codes)
  show "dispatched s (handle_playback_controls fmt (py_ord CHR ''m'') t chs s)
        [''seek '' @ fmt (get_previous_chapter_time t chs) @ '' absolute'']"
    using send_ipc_command_dispatched(1) [OF assms]
    by (simp add: handle_playback_controls_def key_codes)
qed

theorem keymap_encoding_witness:
  "fault_is_caught (fresh_player None)
   \<and> ipc_written (fst (handle_playback_controls sample_fmt (py_ord CHR ''s'') 50 two_chapters
        (fresh_player None))) = [''stop\<newline>'', ''no-screenshot\<newline>'']
   \<and> ipc_written (fst (handle_playback_controls sample_fmt (py_ord CHR ''n'') 50 two_chapters
        (fresh_player None))) = [''seek 300.0 absolute\<newline>'']
   \<and> ipc_written (fst (handle_playback_controls sample_fmt (py_ord CHR ''m'') 50 two_chapters
        (fresh_player None))) = [''seek 0.0 absolute\<newline>'']
   \<and> fault_is_caught (fresh_player (Some BrokenPipeError))
   \<and> sending_log (fst (handle_playback_controls sample_fmt (py_ord CHR ''p'') 50 two_chapters
        (fresh_player (Some BrokenPipeError)))) = [''cycle pause'']
   \<and> ipc_written (fst (handle_playback_controls sample_fmt (py_ord CHR ''p'') 50 two_chapters
        (fresh_player (Some BrokenPipeError)))) = []"
proof -
  have ok: "fault_is_caught (fresh_player None)"
    and broken: "fault_is_caught (fresh_player (Some BrokenPipeError))"
    by (simp_all add: fault_is_caught_def fresh_player_def)
  have targets: "get_next_chapter_time 50 two_chapters = 300"
    "get_previous_chapter_time 50 two_chapters = 0"
    by (simp_all add: two_chapters_def get_previous_chapter_time_def)
  have empty: "ipc_written (fresh_player None) = []" "ipc_fault (fresh_player None) = None"
    "ipc_written (fresh_player (Some BrokenPipeError)) = []"
    "sending_log (fresh_player (Some BrokenPipeError)) = []"
    "ipc_fault (fresh_player (Some BrokenPipeError)) = Some BrokenPipeError"
    by (simp_all add: fresh_player_def)
  from keymap_encoding [OF ok, of sample_fmt 50 two_chapters]
    keymap_encoding [OF broken, of sample_fmt 50 two_chapters]
  show ?thesis
    using ok broken by (simp add: dispatched_def targets empty sample_fmt_def)
qed

text \<open>
  C10. For every key outside \<open>p\<close>, \<open>s\<close>, \<open>f\<close>, \<open>b\<close>, \<open>n\<close>, \<open>m\<close>,
  \<open>handle_playback_controls\<close> sends no command: the channel, the text it has
  received and both logs are left as they were. (A key code outside the range of
  \<^verbatim>\<open>chr\<close>, such as the \<open>-1\<close> of "no key", raises \<^verbatim>\<open>ValueError\<close> at line 125,
  before any command could be sent.)
\<close>

theorem unmapped_key_sends_nothing:
  assumes "key \<notin> py_ord ` {CHR ''p'', CHR ''s'', CHR ''f'', CHR ''b'', CHR ''n'', CHR ''m''}"
  shows "fst (handle_playback_controls fmt key t chs s) = s
    \<and> snd (handle_playback_controls fmt key t chs s) =
        (if 0 \<le> key \<and> key < 0x110000 then None else Some ValueError)"
  using assms by (auto simp: handle_playback_controls_def)

theorem unmapped_key_sends_nothing_witness:
  "(120::int) \<notin> py_ord ` {CHR ''p'', CHR ''s'', CHR ''f'', CHR ''b'', CHR ''n'', CHR ''m''}
   \<and> handle_playback_controls sample_fmt 120 50 two_chapters (fresh_player None)
       = (fresh_player None, None)
   \<and> (-1::int) \<notin> py_ord ` {CHR ''p'', CHR ''s'', CHR ''f'', CHR ''b'', CHR ''n'', CHR ''m''}
   \<and> handle_playback_controls sample_fmt (-1) 50 two_chapters (fresh_player None)
       = (fresh_player None, Some ValueError)"
proof -
  have x: "(120::int) \<notin> py_ord ` {CHR ''p'', CHR ''s'', CHR ''f'', CHR ''b'', CHR ''n'', CHR ''m''}"
    and none: "(-1::int) \<notin> py_ord ` {CHR ''p'', CHR ''s'', CHR ''f'', CHR ''b'', CHR ''n'', CHR ''m''}"
    by (simp_all add: key_codes)
  from unmapped_key_sends_nothing [OF x, of sample_fmt 50 two_chapters "fresh_player None"]
  have a: "handle_playback_controls sample_fmt 120 50 two_chapters (fresh_player None)
       = (fresh_player None, None)"
    by (simp add: prod_eq_iff)
  from unmapped_key_sends_nothing [OF none, of sample_fmt 50 two_chapters "fresh_player None"]
  have b: "handle_playback_controls sample_fmt (-1) 50 two_chapters (fresh_player None)
       = (fresh_player None, Some ValueError)"
    by (simp add: prod_eq_iff)
  from x none a b show ?thesis by simp
qed

section \<open>The loop and its failures\<close>

lemma send_ipc_command_caught:
  assumes "fault_is_caught s"
  shows "send_ipc_command command s =
     (s\<lparr>ipc_written := ipc_written s @ (if ipc_fault s = None then [command @ ''\<newline>''] else []),
        sending_log := sending_log s @ [command],
        error_log := error_log s @ (case ipc_fault s of None \<Rightarrow> [] | Some e \<Rightarrow> [e])\<rparr>, None)"
proof (cases "ipc_fault s")
  case None
  then show ?thesis by (simp add: send_ipc_command_healthy)
next
  case (Some e)
  with assms have "is_Exception e" by (simp add: fault_is_caught_def)
  with Some show ?thesis by (simp add: send_ipc_command_failing)
qed

lemma handle_playback_controls_caught:
  assumes "fault_is_caught s"
  shows "snd (handle_playback_controls fmt key t chs s) =
           (if key < 0 \<or> key \<ge> 0x110000 then Some ValueError else None)"
    and "ipc_fault (fst (handle_playback_controls fmt key t chs s)) = ipc_fault s"
proof -
  have stop: "fault_is_caught (fst (send_ipc_command ''stop'' s))"
    using assms by (simp add: send_ipc_command_caught fault_is_caught_def)
  show "snd (handle_playback_controls fmt key t chs s) =
           (if key < 0 \<or> key \<ge> 0x110000 then Some ValueError else None)"
    using assms stop
    by (simp add: handle_playback_controls_def send_ipc_command_caught Let_def)
  show "ipc_fault (fst (handle_playback_controls fmt key t chs s)) = ipc_fault s"
    using assms stop
    by (simp add: handle_playback_controls_def send_ipc_command_caught Let_def)
qed

lemma loop_body_caught:
  fixes w :: "'b world" and ses :: session and inp :: tick_input
  assumes "fault_is_caught (player w)"
  defines "ct \<equiv> tick_time ses inp"
  shows "snd (loop_body fmt pd ses inp w) =
           (if key_code inp < 0 \<or> key_code inp \<ge> 0x110000 then Some ValueError
            else if int_trunc ct mod 5 = 0 then write_fault (position_file w)
            else None)"
    and "screen (fst (loop_body fmt pd ses inp w)) =
           screen w @
             [\<lparr>shown_title = book_title ses, shown_author = book_author ses,
               shown_current_time = ct, shown_time_left = chapter_time ses - ct,
               shown_chapter_time = chapter_time ses,
               shown_chapter = get_current_chapter ct (book_chapters ses)\<rparr>]"
    and "position_file (fst (loop_body fmt pd ses inp w)) =
           (if 0 \<le> key_code inp \<and> key_code inp < 0x110000 \<and> int_trunc ct mod 5 = 0
               \<and> write_fault (position_file w) = None
            then (position_file w)\<lparr>content := Some (pd ct)\<rparr>
            else position_file w)"
    and "ipc_fault (player (fst (loop_body fmt pd ses inp w))) = ipc_fault (player w)"
proof -
  let ?w1 = "w\<lparr>screen := screen w @
             [\<lparr>shown_title = book_title ses, shown_author = book_author ses,
               shown_current_time = ct, shown_time_left = chapter_time ses - ct,
               shown_chapter_time = chapter_time ses,
               shown_chapter = get_current_chapter ct (book_chapters ses)\<rparr>]\<rparr>"
  obtain p x where h: "handle_playback_controls fmt (key_code inp) ct (book_chapters ses)
      (player ?w1) = (p, x)"
    by (cases "handle_playback_controls fmt (key_code inp) ct (book_chapters ses) (player ?w1)")
  have c: "fault_is_caught (player ?w1)" using assms(1) by simp
  have x: "x = (if key_code inp < 0 \<or> key_code inp \<ge> 0x110000 then Some ValueError else None)"
    using handle_playback_controls_caught(1) [OF c, of fmt "key_code inp" ct "book_chapters ses"] h
    by simp
  have p: "ipc_fault p = ipc_fault (player w)"
    using handle_playback_controls_caught(2) [OF c, of fmt "key_code inp" ct "book_chapters ses"] h
    by simp
  have body: "loop_body fmt pd ses inp w =
    (case x of
       Some e \<Rightarrow> (?w1\<lparr>player := p\<rparr>, Some e)
     | None \<Rightarrow>
        if int_trunc ct mod 5 = 0
        then (case save_playback_position pd ct (position_file w) of
                Inl e \<Rightarrow> (?w1\<lparr>player := p\<rparr>, Some e)
              | Inr f \<Rightarrow> (?w1\<lparr>player := p, position_file := f\<rparr>, None))
        else (?w1\<lparr>player := p\<rparr>, None))"
    using h by (simp add: loop_body_def Let_def ct_def tick_time_def split: option.splits sum.splits)
  show "snd (loop_body fmt pd ses inp w) =
           (if key_code inp < 0 \<or> key_code inp \<ge> 0x110000 then Some ValueError
            else if int_trunc ct mod 5 = 0 then write_fault (position_file w)
            else None)"
    by (simp add: body x save_playback_position_def split: option.splits)
  show "screen (fst (loop_body fmt pd ses inp w)) =
           screen w @
             [\<lparr>shown_title = book_title ses, shown_author = book_author ses,
               shown_current_time = ct, shown_time_left = chapter_time ses - ct,
               shown_chapter_time = chapter_time ses,
               shown_chapter = get_current_chapter ct (book_chapters ses)\<rparr>]"
    by (simp add: body x save_playback_position_def split: option.splits)
  show "position_file (fst (loop_body fmt pd ses inp w)) =
           (if 0 \<le> key_code inp \<and> key_code inp < 0x110000 \<and> int_trunc ct mod 5 = 0
               \<and> write_fault (position_file w) = None
            then (position_file w)\<lparr>content := Some (pd ct)\<rparr>
            else position_file w)"
    by (auto simp: body x save_playback_position_def split: option.splits)
  show "ipc_fault (player (fst (loop_body fmt pd ses inp w))) = ipc_fault (player w)"
    by (simp add: body x p save_playback_position_def split: option.splits)
qed

lemma run_ticks_step:
  "run_ticks fmt pd ses (inp # inps) w =
     (if snd (loop_body fmt pd ses inp w) = None
      then run_ticks fmt pd ses inps (fst (loop_body fmt pd ses inp w))
      else loop_body fmt pd ses inp w)"
  by (cases "loop_body fmt pd ses inp w") (auto split: option.splits)

lemma run_ticks_same_outcome:
  fixes w w' :: "'b world"
  assumes "fault_is_caught (player w)" and "fault_is_caught (player w')"
    and "screen w = screen w'" and "position_file w = position_file w'"
  shows "snd (run_ticks fmt pd ses inps w) = snd (run_ticks fmt pd ses inps w')
       \<and> screen (fst (run_ticks fmt pd ses inps w)) = screen (fst (run_ticks fmt pd ses inps w'))
       \<and> position_file (fst (run_ticks fmt pd ses inps w))
           = position_file (fst (run_ticks fmt pd ses inps w'))"
  using assms
proof (induction inps arbitrary: w w')
  case Nil
  then show ?case by simp
next
  case (Cons inp inps)
  let ?r = "loop_body fmt pd ses inp w" and ?r' = "loop_body fmt pd ses inp w'"
  have s: "snd ?r = snd ?r'"
    using Cons.prems by (simp add: loop_body_caught(1))
  have scr: "screen (fst ?r) = screen (fst ?r')"
    using Cons.prems by (simp add: loop_body_caught(2))
  have pf: "position_file (fst ?r) = position_file (fst ?r')"
    using Cons.prems by (simp add: loop_body_caught(3))
  have c: "fault_is_caught (player (fst ?r))" "fault_is_caught (player (fst ?r'))"
    using Cons.prems by (simp_all add: loop_body_caught(4) fault_is_caught_def)
  show ?case
  proof (cases "snd ?r = None")
    case True
    with s have "snd ?r' = None" by simp
    with True Cons.IH [OF c scr pf] show ?thesis
      by (simp add: run_ticks_step del: run_ticks.simps(2))
  next
    case False
    with s have stop': "snd ?r' \<noteq> None" by simp
    have "run_ticks fmt pd ses (inp # inps) w = ?r"
      using False by (simp only: run_ticks_step if_False)
    moreover have "run_ticks fmt pd ses (inp # inps) w' = ?r'"
      using stop' by (simp only: run_ticks_step if_False)
    ultimately show ?thesis
      using s scr pf by (simp only:)
  qed
qed

lemma run_ticks_all_publish:
  fixes w :: "'b world"
  assumes "fault_is_caught (player w)" and "write_fault (position_file w) = None"
    and "\<forall>i\<in>set inps. 0 \<le> key_code i \<and> key_code i < 0x110000"
  shows "snd (run_ticks fmt pd ses inps w) = None
       \<and> length (screen (fst (run_ticks fmt pd ses inps w))) = length (screen w) + length inps"
  using assms
proof (induction inps arbitrary: w)
  case Nil
  then show ?case by simp
next
  case (Cons inp inps)
  let ?r = "loop_body fmt pd ses inp w"
  have key: "0 \<le> key_code inp \<and> key_code inp < 0x110000"
    using Cons.prems(3) by simp
  have s: "snd ?r = None"
    using Cons.prems(1,2) key by (simp add: loop_body_caught(1))
  have scr: "length (screen (fst ?r)) = Suc (length (screen w))"
    using Cons.prems(1) by (simp add: loop_body_caught(2))
  have pf: "write_fault (position_file (fst ?r)) = None"
    using Cons.prems(1,2) by (simp add: loop_body_caught(3))
  have c: "fault_is_caught (player (fst ?r))"
    using Cons.prems(1) by (simp add: loop_body_caught(4) fault_is_caught_def)
  have rest: "\<forall>i\<in>set inps. 0 \<le> key_code i \<and> key_code i < 0x110000"
    using Cons.prems(3) by simp
  from Cons.IH [OF c pf rest] s scr show ?case
    by (simp add: run_ticks_step del: run_ticks.simps(2))
qed

text \<open>
  C7. A channel write failure in \<open>send_ipc_command\<close> (receiver gone, broken pipe,
  file system error: an exception that \<^verbatim>\<open>except Exception\<close> catches) is absorbed
  there: the call returns normally, the exception is in the error log and nothing is
  written. It never reaches the loop: a tick, and any run of ticks, on the failing
  channel ends the same way, publishes the same frames and leaves the same position
  file as on a working channel. In particular, when the keys are valid key codes and
  the position file can be written, every tick of the run publishes its frame and the
  loop is still running afterwards.
\<close>

theorem send_failure_does_not_stop_the_loop:
  fixes w :: "'b world"
  assumes "is_Exception e"
  shows
    "send_ipc_command command (s\<lparr>ipc_fault := Some e\<rparr>) =
       (s\<lparr>ipc_fault := Some e, sending_log := sending_log s @ [command],
          error_log := error_log s @ [e]\<rparr>, None)
   \<and> snd (loop_body fmt pd ses inp (w\<lparr>player := (player w)\<lparr>ipc_fault := Some e\<rparr>\<rparr>))
       = snd (loop_body fmt pd ses inp (w\<lparr>player := (player w)\<lparr>ipc_fault := None\<rparr>\<rparr>))
   \<and> snd (run_ticks fmt pd ses inps (w\<lparr>player := (player w)\<lparr>ipc_fault := Some e\<rparr>\<rparr>))
       = snd (run_ticks fmt pd ses inps (w\<lparr>player := (player w)\<lparr>ipc_fault := None\<rparr>\<rparr>))
   \<and> screen (fst (run_ticks fmt pd ses inps (w\<lparr>player := (player w)\<lparr>ipc_fault := Some e\<rparr>\<rparr>)))
       = screen (fst (run_ticks fmt pd ses inps (w\<lparr>player := (player w)\<lparr>ipc_fault := None\<rparr>\<rparr>)))
   \<and> position_file (fst (run_ticks fmt pd ses inps (w\<lparr>player := (player w)\<lparr>ipc_fault := Some e\<rparr>\<rparr>)))
       = position_file (fst (run_ticks fmt pd ses inps (w\<lparr>player := (player w)\<lparr>ipc_fault := None\<rparr>\<rparr>)))
   \<and> (write_fault (position_file w) = None
        \<and> (\<forall>i\<in>set inps. 0 \<le> key_code i \<and> key_code i < 0x110000) \<longrightarrow>
        snd (run_ticks fmt pd ses inps (w\<lparr>player := (player w)\<lparr>ipc_fault := Some e\<rparr>\<rparr>)) = None
        \<and> length (screen (fst (run_ticks fmt pd ses inps
              (w\<lparr>player := (player w)\<lparr>ipc_fault := Some e\<rparr>\<rparr>))))
            = length (screen w) + length inps)"
proof -
  let ?bad = "w\<lparr>player := (player w)\<lparr>ipc_fault := Some e\<rparr>\<rparr>"
  let ?ok = "w\<lparr>player := (player w)\<lparr>ipc_fault := None\<rparr>\<rparr>"
  have bad: "fault_is_caught (player ?bad)" and ok: "fault_is_caught (player ?ok)"
    using assms by (simp_all add: fault_is_caught_def)
  have same: "screen ?bad = screen ?ok" "position_file ?bad = position_file ?ok"
    by simp_all
  have send: "send_ipc_command command (s\<lparr>ipc_fault := Some e\<rparr>) =
       (s\<lparr>ipc_fault := Some e, sending_log := sending_log s @ [command],
          error_log := error_log s @ [e]\<rparr>, None)"
    using assms by (simp add: send_ipc_command_failing)
  have tick: "snd (loop_body fmt pd ses inp ?bad) = snd (loop_body fmt pd ses inp ?ok)"
    using bad ok by (simp add: loop_body_caught(1))
  have run: "snd (run_ticks fmt pd ses inps ?bad) = snd (run_ticks fmt pd ses inps ?ok)
       \<and> screen (fst (run_ticks fmt pd ses inps ?bad)) = screen (fst (run_ticks fmt pd ses inps ?ok))
       \<and> position_file (fst (run_ticks fmt pd ses inps ?bad))
           = position_file (fst (run_ticks fmt pd ses inps ?ok))"
    using bad ok same by (rule run_ticks_same_outcome)
  have publish: "snd (run_ticks fmt pd ses inps ?bad) = None
        \<and> length (screen (fst (run_ticks fmt pd ses inps ?bad))) = length (screen w) + length inps"
    if "write_fault (position_file w) = None
        \<and> (\<forall>i\<in>set inps. 0 \<le> key_code i \<and> key_code i < 0x110000)"
    using run_ticks_all_publish [OF bad, of inps fmt pd ses] that by simp
  from send tick run publish show ?thesis by blast
qed

theorem send_failure_does_not_stop_the_loop_witness:
  "is_Exception BrokenPipeError
   \<and> write_fault (position_file (initial_world None (absent_file :: sample_stream pkl_file))) = None
   \<and> 0 \<le> py_ord CHR ''p'' \<and> py_ord CHR ''p'' < 0x110000
   \<and> 0 \<le> py_ord CHR ''n'' \<and> py_ord CHR ''n'' < 0x110000
   \<and> snd (run_ticks sample_fmt sample_dump sample_session
        [\<lparr>wall_clock = 1000, key_code = py_ord CHR ''p''\<rparr>,
         \<lparr>wall_clock = 1001, key_code = py_ord CHR ''n''\<rparr>]
        (initial_world (Some BrokenPipeError) absent_file)) = None
   \<and> length (screen (fst (run_ticks sample_fmt sample_dump sample_session
        [\<lparr>wall_clock = 1000, key_code = py_ord CHR ''p''\<rparr>,
         \<lparr>wall_clock = 1001, key_code = py_ord CHR ''n''\<rparr>]
        (initial_world (Some BrokenPipeError) absent_file)))) = 2"
proof -
  let ?inps = "[\<lparr>wall_clock = 1000, key_code = py_ord CHR ''p''\<rparr>,
         \<lparr>wall_clock = 1001, key_code = py_ord CHR ''n''\<rparr>]"
  let ?w = "initial_world None (absent_file :: sample_stream pkl_file)"
  have e: "is_Exception BrokenPipeError" by simp
  have wf: "write_fault (position_file ?w) = None"
    by (simp add: initial_world_def absent_file_def)
  have keys: "0 \<le> py_ord CHR ''p''" "py_ord CHR ''p'' < 0x110000"
    "0 \<le> py_ord CHR ''n''" "py_ord CHR ''n'' < 0x110000"
    by (simp_all add: key_codes)
  then have all: "\<forall>i\<in>set ?inps. 0 \<le> key_code i \<and> key_code i < 0x110000"
    by simp
  have w: "?w\<lparr>player := (player ?w)\<lparr>ipc_fault := Some BrokenPipeError\<rparr>\<rparr>
             = initial_world (Some BrokenPipeError) absent_file"
    by (simp add: initial_world_def fresh_player_def)
  have scr: "length (screen ?w) = 0"
    by (simp add: initial_world_def)
  from send_failure_does_not_stop_the_loop [OF e, of _ _ sample_fmt sample_dump sample_session _ ?w ?inps]
    wf all
  have "snd (run_ticks sample_fmt sample_dump sample_session ?inps
          (?w\<lparr>player := (player ?w)\<lparr>ipc_fault := Some BrokenPipeError\<rparr>\<rparr>)) = None
      \<and> length (screen (fst (run_ticks sample_fmt sample_dump sample_session ?inps
          (?w\<lparr>player := (player ?w)\<lparr>ipc_fault := Some BrokenPipeError\<rparr>\<rparr>))))
          = length (screen ?w) + length ?inps"
    by blast
  then have "snd (run_ticks sample_fmt sample_dump sample_session ?inps
          (initial_world (Some BrokenPipeError) absent_file)) = None
      \<and> length (screen (fst (run_ticks sample_fmt sample_dump sample_session ?inps
          (initial_world (Some BrokenPipeError) absent_file)))) = 2"
    by (simp only: w scr) simp
  with e wf keys show ?thesis by simp
qed

text \<open>
  C3, as the code has it. \<open>save_playback_position\<close> has no failure result: it
  raises exactly when the file cannot be opened for writing. \<open>play_audiobook\<close> does
  not catch the exception: in a tick whose key handling raises nothing and whose
  periodic save fails, the tick publishes its frame and the loop ends with the
  exception of the save, so no later tick runs. When no save is due in the tick, or
  the file can be written, the loop proceeds to the next tick.
\<close>

theorem save_failure_ends_the_loop:
  fixes w :: "'b world"
  assumes "fault_is_caught (player w)"
    and "0 \<le> key_code inp \<and> key_code inp < 0x110000"
  shows
    "(save_playback_position pd position f = Inl e \<longleftrightarrow> write_fault f = Some e)
   \<and> (int_trunc (tick_time ses inp) mod 5 = 0 \<and> write_fault (position_file w) = Some e \<longrightarrow>
        snd (loop_body fmt pd ses inp w) = Some e
        \<and> run_ticks fmt pd ses (inp # inps) w = loop_body fmt pd ses inp w
        \<and> length (screen (fst (run_ticks fmt pd ses (inp # inps) w))) = length (screen w) + 1)
   \<and> (int_trunc (tick_time ses inp) mod 5 \<noteq> 0 \<or> write_fault (position_file w) = None \<longrightarrow>
        snd (loop_body fmt pd ses inp w) = None
        \<and> run_ticks fmt pd ses (inp # inps) w
            = run_ticks fmt pd ses inps (fst (loop_body fmt pd ses inp w)))"
proof (intro conjI impI)
  show "save_playback_position pd position f = Inl e \<longleftrightarrow> write_fault f = Some e"
    by (simp add: save_playback_position_def split: option.splits)
next
  assume h: "int_trunc (tick_time ses inp) mod 5 = 0 \<and> write_fault (position_file w) = Some e"
  with assms show stop: "snd (loop_body fmt pd ses inp w) = Some e"
    by (simp add: loop_body_caught(1))
  then show eq: "run_ticks fmt pd ses (inp # inps) w = loop_body fmt pd ses inp w"
    by (simp only: run_ticks_step) simp
  show "length (screen (fst (run_ticks fmt pd ses (inp # inps) w))) = length (screen w) + 1"
    using assms(1) by (simp only: eq) (simp add: loop_body_caught(2))
next
  assume h: "int_trunc (tick_time ses inp) mod 5 \<noteq> 0 \<or> write_fault (position_file w) = None"
  with assms show go: "snd (loop_body fmt pd ses inp w) = None"
    by (auto simp: loop_body_caught(1))
  then show "run_ticks fmt pd ses (inp # inps) w
            = run_ticks fmt pd ses inps (fst (loop_body fmt pd ses inp w))"
    by (simp only: run_ticks_step) simp
qed

theorem save_failure_ends_the_loop_witness:
  "fault_is_caught (player (initial_world None (read_only_dir :: sample_stream pkl_file)))
   \<and> 0 \<le> (120::int) \<and> (120::int) < 0x110000
   \<and> int_trunc (tick_time sample_session \<lparr>wall_clock = 1000, key_code = 120\<rparr>) mod 5 = 0
   \<and> write_fault (position_file (initial_world None (read_only_dir :: sample_stream pkl_file)))
       = Some PermissionError
   \<and> snd (run_ticks sample_fmt sample_dump sample_session
        [\<lparr>wall_clock = 1000, key_code = 120\<rparr>, \<lparr>wall_clock = 1001, key_code = 120\<rparr>]
        (initial_world None read_only_dir)) = Some PermissionError
   \<and> length (screen (fst (run_ticks sample_fmt sample_dump sample_session
        [\<lparr>wall_clock = 1000, key_code = 120\<rparr>, \<lparr>wall_clock = 1001, key_code = 120\<rparr>]
        (initial_world None read_only_dir)))) = 1
   \<and> int_trunc (tick_time sample_session \<lparr>wall_clock = 1001, key_code = 120\<rparr>) mod 5 \<noteq> 0
   \<and> run_ticks sample_fmt sample_dump sample_session
        [\<lparr>wall_clock = 1001, key_code = 120\<rparr>, \<lparr>wall_clock = 1002, key_code = 120\<rparr>]
        (initial_world None (read_only_dir :: sample_stream pkl_file))
       = run_ticks sample_fmt sample_dump sample_session [\<lparr>wall_clock = 1002, key_code = 120\<rparr>]
          (fst (loop_body sample_fmt sample_dump sample_session
                  \<lparr>wall_clock = 1001, key_code = 120\<rparr> (initial_world None read_only_dir)))"
proof -
  let ?w = "initial_world None (read_only_dir :: sample_stream pkl_file)"
  let ?i0 = "\<lparr>wall_clock = 1000, key_code = 120\<rparr>"
  let ?i1 = "\<lparr>wall_clock = 1001, key_code = 120\<rparr>"
  let ?i2 = "\<lparr>wall_clock = 1002, key_code = 120\<rparr>"
  have c: "fault_is_caught (player ?w)"
    by (simp add: initial_world_def fresh_player_def fault_is_caught_def)
  have k: "0 \<le> (120::int)" "(120::int) < 0x110000"
    by simp_all
  have k0: "0 \<le> key_code ?i0 \<and> key_code ?i0 < 0x110000"
    and k1: "0 \<le> key_code ?i1 \<and> key_code ?i1 < 0x110000"
    by simp_all
  have due: "int_trunc (tick_time sample_session ?i0) mod 5 = 0"
    and not_due: "int_trunc (tick_time sample_session ?i1) mod 5 \<noteq> 0"
    by (simp_all add: tick_time_def sample_session_def int_trunc_def)
  have wf: "write_fault (position_file ?w) = Some PermissionError"
    and scr: "length (screen ?w) = 0"
    by (simp_all add: initial_world_def read_only_dir_def)
  from save_failure_ends_the_loop [where w = "?w" and inp = "?i0" and ses = sample_session
      and e = PermissionError and fmt = sample_fmt and pd = sample_dump and inps = "[?i1]"
      and position = 0 and f = "position_file ?w", OF c k0] due wf
  have stop: "snd (loop_body sample_fmt sample_dump sample_session ?i0 ?w) = Some PermissionError"
    and same: "run_ticks sample_fmt sample_dump sample_session [?i0, ?i1] ?w
              = loop_body sample_fmt sample_dump sample_session ?i0 ?w"
    and b: "length (screen (fst (run_ticks sample_fmt sample_dump sample_session [?i0, ?i1] ?w)))
              = length (screen ?w) + 1"
    by blast+
  from stop same
  have a: "snd (run_ticks sample_fmt sample_dump sample_session [?i0, ?i1] ?w) = Some PermissionError"
    by (simp only:)
  from save_failure_ends_the_loop [where w = "?w" and inp = "?i1" and ses = sample_session
      and fmt = sample_fmt and pd = sample_dump and inps = "[?i2]"
      and e = PermissionError and position = 0 and f = "position_file ?w", OF c k1] not_due
  have d: "run_ticks sample_fmt sample_dump sample_session [?i1, ?i2] ?w
       = run_ticks sample_fmt sample_dump sample_session [?i2]
          (fst (loop_body sample_fmt sample_dump sample_session ?i1 ?w))"
    by blast
  from c k due wf a b not_due d show ?thesis
    by (simp only: scr) simp
qed

text \<open>
  C3 as stated fails. The session starts in a directory that cannot be written and
  holds no position file: loading finds no file and gives \<open>0\<close>, the first tick
  publishes, its save is due (the truncated time is \<open>0\<close>) and raises
  \<^verbatim>\<open>PermissionError\<close>, and \<open>play_audiobook\<close> ends with that exception. The second
  tick never runs: one frame was published, not two.
\<close>

theorem save_failure_counterexample:
  "snd (play_audiobook sample_fmt sample_dump sample_load (''Book'', ''Author'', two_chapters)
          600 1000
          [\<lparr>wall_clock = 1000, key_code = 120\<rparr>, \<lparr>wall_clock = 1001, key_code = 120\<rparr>]
          (initial_world None read_only_dir)) = Some PermissionError
   \<and> length (screen (fst (play_audiobook sample_fmt sample_dump sample_load
          (''Book'', ''Author'', two_chapters) 600 1000
          [\<lparr>wall_clock = 1000, key_code = 120\<rparr>, \<lparr>wall_clock = 1001, key_code = 120\<rparr>]
          (initial_world None read_only_dir)))) = 1"
  by (simp add: play_audiobook_def load_playback_position_def open_rb_def read_only_dir_def
      initial_world_def fresh_player_def loop_body_def handle_playback_controls_def key_codes
      int_trunc_def save_playback_position_def Let_def)

section \<open>Loading and saving the position\<close>

lemma load_playback_position_cases:
  "load_playback_position pickle_load f =
     (case read_fault f of
        Some e \<Rightarrow> if e = FileNotFoundError then Inr 0 else Inl e
      | None \<Rightarrow>
          (case content f of
             None \<Rightarrow> Inr 0
           | Some b \<Rightarrow>
               (case pickle_load b of
                  Inr v \<Rightarrow> Inr v
                | Inl e \<Rightarrow> if e = FileNotFoundError then Inr 0 else Inl e)))"
  by (simp add: load_playback_position_def open_rb_def split: option.splits sum.splits)

text \<open>
  C2, as the code has it. \<open>load_playback_position\<close> returns the persisted offset when
  the file can be opened and its content decodes, and returns \<open>0\<close> when there is no
  state file, that is when the attempt raises \<^verbatim>\<open>FileNotFoundError\<close>. Every other
  read or deserialize error is raised to the caller.
\<close>

theorem load_playback_position_outcomes:
  "(read_fault f = None \<and> content f = Some b \<and> pickle_load b = Inr v \<longrightarrow>
      load_playback_position pickle_load f = Inr v)
   \<and> (read_fault f = None \<and> content f = None \<longrightarrow>
      load_playback_position pickle_load f = Inr 0)
   \<and> (read_fault f = Some FileNotFoundError
        \<or> read_fault f = None \<and> content f = Some b \<and> pickle_load b = Inl FileNotFoundError \<longrightarrow>
      load_playback_position pickle_load f = Inr 0)
   \<and> (e \<noteq> FileNotFoundError \<and> read_fault f = Some e \<longrightarrow>
      load_playback_position pickle_load f = Inl e)
   \<and> (e \<noteq> FileNotFoundError \<and> read_fault f = None \<and> content f = Some b
        \<and> pickle_load b = Inl e \<longrightarrow>
      load_playback_position pickle_load f = Inl e)"
  by (auto simp: load_playback_position_cases)

theorem load_playback_position_outcomes_witness:
  "read_fault (absent_file :: sample_stream pkl_file) = None
   \<and> content (absent_file :: sample_stream pkl_file) = None
   \<and> load_playback_position sample_load absent_file = Inr 0
   \<and> PermissionError \<noteq> FileNotFoundError
   \<and> read_fault unreadable_file = Some PermissionError
   \<and> load_playback_position sample_load unreadable_file = Inl PermissionError
   \<and> EOFError \<noteq> FileNotFoundError
   \<and> read_fault truncated_file = None \<and> content truncated_file = Some Empty_stream
   \<and> sample_load Empty_stream = Inl EOFError
   \<and> load_playback_position sample_load truncated_file = Inl EOFError"
proof -
  have absent: "read_fault (absent_file :: sample_stream pkl_file) = None"
    "content (absent_file :: sample_stream pkl_file) = None"
    by (simp_all add: absent_file_def)
  with load_playback_position_outcomes [of absent_file _ sample_load]
  have a: "load_playback_position sample_load absent_file = Inr 0"
    by blast
  have unreadable: "PermissionError \<noteq> FileNotFoundError"
    "read_fault unreadable_file = Some PermissionError"
    by (simp_all add: unreadable_file_def)
  with load_playback_position_outcomes [of unreadable_file _ sample_load _ PermissionError]
  have b: "load_playback_position sample_load unreadable_file = Inl PermissionError"
    by blast
  have truncated: "EOFError \<noteq> FileNotFoundError"
    "read_fault truncated_file = None" "content truncated_file = Some Empty_stream"
    "sample_load Empty_stream = Inl EOFError"
    by (simp_all add: truncated_file_def)
  with load_playback_position_outcomes [of truncated_file Empty_stream sample_load _ EOFError]
  have c: "load_playback_position sample_load truncated_file = Inl EOFError"
    by blast
  from absent a unreadable b truncated c show ?thesis by simp
qed

text \<open>
  C2 as stated fails: a state file that an interrupted write left empty makes
  \<^verbatim>\<open>pickle.load\<close> raise \<^verbatim>\<open>EOFError\<close>, and a state file that cannot be opened
  for reading makes \<^verbatim>\<open>open\<close> raise \<^verbatim>\<open>PermissionError\<close>; neither is a
  \<^verbatim>\<open>FileNotFoundError\<close>, so both leave \<open>load_playback_position\<close> as exceptions
  instead of the result \<open>0\<close>.
\<close>

theorem load_failure_counterexample:
  "load_playback_position sample_load truncated_file = Inl EOFError
   \<and> load_playback_position sample_load unreadable_file = Inl PermissionError"
  by (simp add: load_playback_position_def open_rb_def truncated_file_def unreadable_file_def)

text \<open>
  C8. Round trip: when the file can be written and read, and \<^verbatim>\<open>pickle\<close> decodes
  the stream it writes for \<open>x\<close> to \<open>x\<close>, then \<open>save_playback_position x\<close> succeeds
  and \<open>load_playback_position\<close> on the file it leaves returns exactly \<open>x\<close>. This
  holds for every \<open>x\<close>, in particular for every \<open>x \<ge> 0\<close>.
\<close>

theorem save_then_load_round_trip:
  assumes "pickle_load (pickle_dump x) = Inr x"
    and "write_fault f = None" and "read_fault f = None"
  shows "case save_playback_position pickle_dump x f of
           Inl e \<Rightarrow> False
         | Inr f' \<Rightarrow> load_playback_position pickle_load f' = Inr x"
  using assms by (simp add: save_playback_position_def load_playback_position_cases)

theorem save_then_load_round_trip_witness:
  "sample_load (sample_dump 42.5) = Inr 42.5
   \<and> write_fault truncated_file = None \<and> read_fault truncated_file = None
   \<and> save_playback_position sample_dump 42.5 truncated_file
       = Inr (truncated_file\<lparr>content := Some (Stream_of 42.5)\<rparr>)
   \<and> load_playback_position sample_load (truncated_file\<lparr>content := Some (Stream_of 42.5)\<rparr>)
       = Inr 42.5"
proof -
  have codec: "sample_load (sample_dump 42.5) = Inr 42.5"
    by (simp add: sample_dump_def)
  have wf: "write_fault truncated_file = None" and rf: "read_fault truncated_file = None"
    by (simp_all add: truncated_file_def)
  have saved: "save_playback_position sample_dump 42.5 truncated_file
       = Inr (truncated_file\<lparr>content := Some (Stream_of 42.5)\<rparr>)"
    by (simp add: save_playback_position_def truncated_file_def sample_dump_def)
  from save_then_load_round_trip [where pickle_load = sample_load and pickle_dump = sample_dump
      and x = "42.5" and f = truncated_file, OF codec wf rf]
  have "load_playback_position sample_load (truncated_file\<lparr>content := Some (Stream_of 42.5)\<rparr>)
       = Inr 42.5"
    by (simp only: saved sum.case)
  with codec wf rf saved show ?thesis by simp
qed

end
